theory Spec2Isabelle
  imports Main "HOL-Library.Char_ord" "HOL-Library.List_Lexorder"
begin

section \<open>Python strings\<close>

text \<open>
  A Python \<open>str\<close> is modelled as a \<^typ>\<open>string\<close> whose characters are the code points
  U+0000 to U+00FF; text with code points beyond U+00FF is outside the model. The
  functions below are the \<open>str\<close> methods that \<open>Sub_Auto.py\<close> calls, restricted to that
  range.
\<close>

definition LF :: char where
  "LF = CHR 0x0A"

definition CR :: char where
  "CR = CHR 0x0D"

text \<open>\<open>str.isspace\<close> on one character: TAB, LF, VT, FF, CR, FS, GS, RS, US, SPACE, NEL, NBSP.\<close>

definition isspace :: "char \<Rightarrow> bool" where
  "isspace c = (let n = (of_char c :: nat) in
     (9 \<le> n \<and> n \<le> 13) \<or> (28 \<le> n \<and> n \<le> 32) \<or> n = 133 \<or> n = 160)"

text \<open>\<open>s.strip()\<close>: whitespace removed from both ends.\<close>

definition strip :: "string \<Rightarrow> string" where
  "strip s = rev (dropWhile isspace (rev (dropWhile isspace s)))"

text \<open>\<open>s.lower()\<close>: A-Z and the Latin-1 capitals (U+00C0 to U+00DE without U+00D7) move up by 32.\<close>

definition lower_char :: "char \<Rightarrow> char" where
  "lower_char c = (let n = (of_char c :: nat) in
     if (65 \<le> n \<and> n \<le> 90) \<or> (192 \<le> n \<and> n \<le> 222 \<and> n \<noteq> 215)
     then char_of (n + 32) else c)"

definition lower :: "string \<Rightarrow> string" where
  "lower s = map lower_char s"

text \<open>\<open>sub in s\<close>: \<open>sub\<close> occurs in \<open>s\<close> as a contiguous substring.\<close>

fun contains :: "string \<Rightarrow> string \<Rightarrow> bool" where
  "contains sub [] = (sub = [])"
| "contains sub (c # s) = (take (length sub) (c # s) = sub \<or> contains sub s)"

text \<open>The test \<open>"not found" in stderr.lower()\<close> of lines 19, 59 and 161.\<close>

definition not_found_in :: "string \<Rightarrow> bool" where
  "not_found_in stderr = contains ''not found'' (lower stderr)"

text \<open>
  \<open>s.splitlines()\<close>: the line boundaries are LF, CR, CR LF, VT, FF, FS, GS, RS and NEL;
  the boundaries are dropped, and a boundary at the very end opens no further line.
\<close>

definition is_linebreak :: "char \<Rightarrow> bool" where
  "is_linebreak c = (let n = (of_char c :: nat) in
     (10 \<le> n \<and> n \<le> 13) \<or> (28 \<le> n \<and> n \<le> 30) \<or> n = 133)"

fun splitlines_from :: "string \<Rightarrow> string \<Rightarrow> string list" where
  "splitlines_from acc [] = (if acc = [] then [] else [rev acc])"
| "splitlines_from acc [c] =
     (if is_linebreak c then [rev acc] else [rev (c # acc)])"
| "splitlines_from acc (c # d # s) =
     (if c = CR \<and> d = LF then rev acc # splitlines_from [] s
      else if is_linebreak c then rev acc # splitlines_from [] (d # s)
      else splitlines_from (c # acc) (d # s))"

definition splitlines :: "string \<Rightarrow> string list" where
  "splitlines s = splitlines_from [] s"

text \<open>
  \<open>for line in f\<close> on a file opened in text mode (universal newlines): the content is cut
  after every LF, CR LF or CR, each of which is read as LF and stays at the end of its line.
\<close>

fun file_lines_from :: "string \<Rightarrow> string \<Rightarrow> string list" where
  "file_lines_from acc [] = (if acc = [] then [] else [rev acc])"
| "file_lines_from acc [c] =
     (if c = LF \<or> c = CR then [rev (LF # acc)] else [rev (c # acc)])"
| "file_lines_from acc (c # d # s) =
     (if c = CR \<and> d = LF then rev (LF # acc) # file_lines_from [] s
      else if c = LF \<or> c = CR then rev (LF # acc) # file_lines_from [] (d # s)
      else file_lines_from (c # acc) (d # s))"

definition file_lines :: "string \<Rightarrow> string list" where
  "file_lines content = file_lines_from [] content"

text \<open>\<open>command.split(' ')[0]\<close>: the text before the first space.\<close>

definition first_word :: "string \<Rightarrow> string" where
  "first_word command = takeWhile (\<lambda>c. c \<noteq> CHR '' '') command"

section \<open>The world outside the program\<close>

text \<open>
  The file system is a flat map from path strings to the text of regular, readable files;
  directories, permissions and links are outside the model, so \<open>open\<close>, \<open>os.remove\<close> and
  \<open>os.path.exists\<close> behave as on such files.
\<close>

type_synonym path = string

type_synonym fs = "path \<rightharpoonup> string"

text \<open>
  How \<open>subprocess.run(command, shell=True, capture_output=True, text=True, check=False)\<close>
  ends: the process completes with its captured standard output, standard error and return
  code, or the call raises \<open>FileNotFoundError\<close>, or it raises another \<open>Exception\<close> \<open>e\<close>, kept
  as \<open>str(e)\<close>. (Interrupts, which are no subclass of \<open>Exception\<close>, are outside the model.)
\<close>

datatype proc_outcome =
    Completed string string int
  | RaisedFileNotFoundError
  | RaisedException string

text \<open>
  The external tools are a parameter: a shell maps a command line, the file system and the
  rest of the environment (network, installed binaries, time) to the outcome of the call,
  the file system it leaves and the next environment.
\<close>

type_synonym 'e shell = "string \<Rightarrow> fs \<times> 'e \<Rightarrow> proc_outcome \<times> fs \<times> 'e"

text \<open>
  Every \<open>print\<close> and every \<open>input\<close> prompt of the script is one constructor, carrying the
  values its f-string interpolates, in the order of the source lines. The progress message
  of line 79 carries the host, \<open>i + 1\<close> and the number of targets instead of the percentage
  computed from them.
\<close>

datatype msg =
    MsgNotInstalled string
  | MsgCommandNotFound string
  | MsgUnexpected string
  | MsgStarting string
  | MsgRunningInitial
  | MsgRunning string
  | MsgToolCompleted string path
  | MsgToolFailed string string
  | MsgFoundInitially nat
  | MsgStartingRecursive
  | MsgProgress string nat nat
  | MsgNewline
  | MsgAfterRecursion nat
  | MsgCheckingLive
  | MsgLiveSaved path
  | MsgTotalLive nat
  | MsgHttpxFailed string
  | PromptInputFile path
  | MsgInputFileNotFound path
  | MsgStartingScreenshot path
  | MsgScreenshotsSavedTo path
  | MsgScreenshotDone path
  | MsgScreenshotFailed string
  | MsgWelcome
  | MsgHelps
  | MsgRule
  | PromptDomain
  | MsgDomainEmpty
  | MsgMainMenu
  | MsgMenu1
  | MsgMenu2
  | MsgMenu3
  | PromptChoice
  | MsgFindingCompleted path
  | MsgFindingFailed
  | MsgScreenshotFinished
  | MsgGoodbye
  | MsgInvalidChoice

text \<open>
  The state the script acts on: the files, the environment of the tools, the command lines
  handed to \<open>subprocess.run\<close> so far, and what was written to the console.
\<close>

record 'e world =
  files :: fs
  env :: 'e
  invoked :: "string list"
  console :: "msg list"

definition py_print :: "msg \<Rightarrow> 'e world \<Rightarrow> 'e world" where
  "py_print m w = w\<lparr>console := console w @ [m]\<rparr>"

definition os_path_exists :: "'e world \<Rightarrow> path \<Rightarrow> bool" where
  "os_path_exists w p = (files w p \<noteq> None)"

definition os_remove :: "path \<Rightarrow> 'e world \<Rightarrow> 'e world" where
  "os_remove p w = w\<lparr>files := (files w)(p := None)\<rparr>"

text \<open>The exceptions that can leave a function of the script.\<close>

datatype py_exn = FileNotFoundError | EOFError

text \<open>
  \<open>input(prompt)\<close>: the prompt is written, then one line of standard input is read;
  at the end of the input \<open>EOFError\<close> is raised. The lines not yet read are passed on.
\<close>

definition py_input :: "msg \<Rightarrow> string list \<Rightarrow> 'e world \<Rightarrow> (string \<times> string list) option \<times> 'e world" where
  "py_input prompt inputs w =
     (case inputs of
        [] \<Rightarrow> (None, py_print prompt w)
      | line # rest \<Rightarrow> (Some (line, rest), py_print prompt w))"

section \<open>Command Runner: \<open>run_command\<close> (lines 6 to 28)\<close>

type_synonym run_result = "string option \<times> string \<times> int"

definition run_command :: "'e shell \<Rightarrow> string \<Rightarrow> string \<Rightarrow> 'e world \<Rightarrow> run_result \<times> 'e world" where
  "run_command sh command error_message w =
     (case sh command (files w, env w) of
        (outcome, fs', env') \<Rightarrow>
          (let w1 = w\<lparr>files := fs', env := env', invoked := invoked w @ [command]\<rparr> in
           case outcome of
             Completed stdout stderr returncode \<Rightarrow>
               if returncode \<noteq> 0 \<and> not_found_in stderr
               then ((None, stderr, returncode), py_print (MsgNotInstalled error_message) w1)
               else ((Some stdout, stderr, returncode), w1)
           | RaisedFileNotFoundError \<Rightarrow>
               ((None, ''FileNotFoundError'', 127),
                py_print (MsgCommandNotFound (first_word command)) w1)
           | RaisedException e \<Rightarrow>
               ((None, e, 1), py_print (MsgUnexpected e) w1)))"

text \<open>The triple \<open>run_command\<close> returns when \<open>subprocess.run\<close> ends with the given outcome.\<close>

definition returned :: "proc_outcome \<Rightarrow> run_result" where
  "returned outcome =
     (case outcome of
        Completed stdout stderr returncode \<Rightarrow>
          if returncode \<noteq> 0 \<and> not_found_in stderr
          then (None, stderr, returncode) else (Some stdout, stderr, returncode)
      | RaisedFileNotFoundError \<Rightarrow> (None, ''FileNotFoundError'', 127)
      | RaisedException e \<Rightarrow> (None, e, 1))"

subsection \<open>The Command Runner on a console that can refuse a message\<close>

text \<open>
  \<open>print\<close> raises when the console cannot take the text: \<open>UnicodeEncodeError\<close> for a
  character that the console's encoding lacks, an \<open>OSError\<close> for a broken pipe. A console
  maps a message to \<open>None\<close> when printing it succeeds, and to \<open>Some e\<close> when \<open>print\<close> raises
  an exception with \<open>str(e) = e\<close>; such an exception is an \<open>Exception\<close> and no
  \<open>FileNotFoundError\<close>, and nothing is written. \<open>run_command\<close> above is the function on a
  console that takes every message; \<open>run_command_exn\<close> below is lines 6 to 28 on any
  console.
\<close>

type_synonym console = "msg \<Rightarrow> string option"




section \<open>Discovery Pipeline: \<open>find_subdomains\<close> (lines 30 to 135)\<close>

subsection \<open>Step 1, initial discovery (lines 35 to 65)\<close>

definition subfinder_file :: "string \<Rightarrow> path" where
  "subfinder_file target_domain = target_domain @ ''_subfinder.txt''"

definition amass_file :: "string \<Rightarrow> path" where
  "amass_file target_domain = target_domain @ ''_amass.txt''"

definition initial_subfinder_cmd :: "string \<Rightarrow> string" where
  "initial_subfinder_cmd target_domain =
     ''subfinder -d '' @ target_domain @ '' -o '' @ subfinder_file target_domain"

definition initial_amass_cmd :: "string \<Rightarrow> string" where
  "initial_amass_cmd target_domain =
     ''amass enum -d '' @ target_domain @ '' -o '' @ amass_file target_domain"

definition tools :: "string \<Rightarrow> (string \<times> string) list" where
  "tools target_domain =
     [(''subfinder'', initial_subfinder_cmd target_domain),
      (''amass'', initial_amass_cmd target_domain)]"

definition tool_label :: "string \<Rightarrow> string" where
  "tool_label tool_name = ''Tool '' @ [CHR 0x27] @ tool_name @ [CHR 0x27]"

text \<open>
  The loop of lines 46 to 60 over \<open>tools.items()\<close>, a dict in insertion order. Its state is
  \<open>unique_subdomains\<close>, \<open>initial_subdomain_files\<close> and the world; \<open>None\<close> is the early
  \<open>return None\<close> of line 60. The test of line 52 and the \<open>open\<close> of line 54 see the same
  files, so they are one case distinction on the file's content.
\<close>

fun initial_loop ::
  "'e shell \<Rightarrow> string \<Rightarrow> (string \<times> string) list \<Rightarrow> string set \<Rightarrow> path list \<Rightarrow> 'e world
   \<Rightarrow> (string set \<times> path list) option \<times> 'e world" where
  "initial_loop sh target_domain [] unique_subdomains initial_files w =
     (Some (unique_subdomains, initial_files), w)"
| "initial_loop sh target_domain ((tool_name, command) # rest) unique_subdomains initial_files w =
     (let output_file = target_domain @ ''_'' @ tool_name @ ''.txt'';
          initial_files1 = initial_files @ [output_file];
          w1 = py_print (MsgRunning tool_name) w
      in case run_command sh command (tool_label tool_name) w1 of
           ((stdout, stderr, returncode), w2) \<Rightarrow>
             (case (if returncode = 0 then files w2 output_file else None) of
                Some content \<Rightarrow>
                  initial_loop sh target_domain rest
                    (fold (\<lambda>line u. insert (strip line) u) (file_lines content) unique_subdomains)
                    initial_files1
                    (py_print (MsgToolCompleted tool_name output_file) w2)
              | None \<Rightarrow>
                  (let w3 = py_print (MsgToolFailed tool_name (strip stderr)) w2
                   in if not_found_in stderr then (None, w3)
                      else initial_loop sh target_domain rest unique_subdomains initial_files1 w3)))"

definition initial_discovery ::
  "'e shell \<Rightarrow> string \<Rightarrow> 'e world \<Rightarrow> (string set \<times> path list) option \<times> 'e world" where
  "initial_discovery sh target_domain w =
     (case initial_loop sh target_domain (tools target_domain) {} []
             (py_print MsgRunningInitial (py_print (MsgStarting target_domain) w)) of
        (None, w1) \<Rightarrow> (None, w1)
      | (Some (unique_subdomains, initial_files), w1) \<Rightarrow>
          (let unique1 = insert target_domain unique_subdomains
           in (Some (unique1, initial_files), py_print (MsgFoundInitially (card unique1)) w1)))"

subsection \<open>Step 2, recursive expansion (lines 67 to 100)\<close>

text \<open>Lines 86 to 89 and 92 to 95: the non-blank trimmed lines of a tool's standard output.\<close>

definition add_stdout_lines :: "string option \<Rightarrow> int \<Rightarrow> string set \<Rightarrow> string set" where
  "add_stdout_lines stdout returncode newly_found =
     (case stdout of
        None \<Rightarrow> newly_found
      | Some out \<Rightarrow>
          if returncode = 0 \<and> out \<noteq> []
          then fold (\<lambda>line n. if strip line \<noteq> [] then insert (strip line) n else n)
                 (splitlines out) newly_found
          else newly_found)"

definition subfinder_cmd :: "string \<Rightarrow> string" where
  "subfinder_cmd sub = ''subfinder -d '' @ sub"

definition amass_cmd :: "string \<Rightarrow> string" where
  "amass_cmd sub = ''amass enum -d '' @ sub"

text \<open>
  The loop of lines 73 to 96 over \<open>enumerate(subdomains_to_process_recursively)\<close>.
  \<open>time.sleep(0.1)\<close> changes nothing of the modelled state.
\<close>

fun recursive_loop ::
  "'e shell \<Rightarrow> string \<Rightarrow> nat \<Rightarrow> (nat \<times> string) list \<Rightarrow> string set \<Rightarrow> 'e world
   \<Rightarrow> string set \<times> 'e world" where
  "recursive_loop sh target_domain total_targets [] newly_found w = (newly_found, w)"
| "recursive_loop sh target_domain total_targets ((i, sub) # rest) newly_found w =
     (if sub = target_domain then recursive_loop sh target_domain total_targets rest newly_found w
      else
        (let w1 = py_print (MsgProgress sub (i + 1) total_targets) w
         in case run_command sh (subfinder_cmd sub) ''subfinder'' w1 of
              ((stdout_subfinder, _, returncode_subfinder), w2) \<Rightarrow>
                (let found1 = add_stdout_lines stdout_subfinder returncode_subfinder newly_found
                 in case run_command sh (amass_cmd sub) ''amass'' w2 of
                      ((stdout_amass, _, returncode_amass), w3) \<Rightarrow>
                        recursive_loop sh target_domain total_targets rest
                          (add_stdout_lines stdout_amass returncode_amass found1) w3)))"

text \<open>
  \<open>list(unique_subdomains.copy())\<close> lists a set in an order Python does not specify: the
  order is the parameter \<open>iter\<close>.
\<close>

definition recursive_expansion ::
  "'e shell \<Rightarrow> (string set \<Rightarrow> string list) \<Rightarrow> string \<Rightarrow> string set \<Rightarrow> 'e world
   \<Rightarrow> string set \<times> 'e world" where
  "recursive_expansion sh iter target_domain unique_subdomains w =
     (let subdomains_to_process = iter unique_subdomains;
          total_targets = length subdomains_to_process
      in case recursive_loop sh target_domain total_targets (enumerate 0 subdomains_to_process) {}
                (py_print MsgStartingRecursive w) of
           (newly_found, w1) \<Rightarrow>
             (let unique1 = unique_subdomains \<union> newly_found
              in (unique1, py_print (MsgAfterRecursion (card unique1)) (py_print MsgNewline w1))))"

subsection \<open>The temporary full-set file (lines 102 to 105)\<close>

definition temp_file :: "string \<Rightarrow> path" where
  "temp_file target_domain = target_domain @ ''_all_unique_subdomains.txt''"

definition write_lines :: "path \<Rightarrow> string list \<Rightarrow> 'e world \<Rightarrow> 'e world" where
  "write_lines p entries w =
     w\<lparr>files := (files w)(p \<mapsto> concat (map (\<lambda>sub. sub @ [LF]) entries))\<rparr>"

definition write_temp ::
  "(string set \<Rightarrow> string list) \<Rightarrow> string \<Rightarrow> string set \<Rightarrow> 'e world \<Rightarrow> 'e world" where
  "write_temp iter target_domain unique_subdomains w =
     write_lines (temp_file target_domain) (sort (iter unique_subdomains)) w"

subsection \<open>Step 3, live check (lines 107 to 135)\<close>

definition live_file :: "string \<Rightarrow> path" where
  "live_file target_domain = target_domain @ ''_subdomains.txt''"

definition httpx_command :: "string \<Rightarrow> string" where
  "httpx_command target_domain =
     ''cat '' @ temp_file target_domain @ '' | httpx -silent -o '' @ live_file target_domain"

text \<open>Lines 117 to 121 and 130 to 134: each file is removed if it exists.\<close>

definition remove_if_exists :: "path \<Rightarrow> 'e world \<Rightarrow> 'e world" where
  "remove_if_exists f w = (if os_path_exists w f then os_remove f w else w)"

definition cleanup :: "path list \<Rightarrow> path \<Rightarrow> 'e world \<Rightarrow> 'e world" where
  "cleanup initial_files temp w = remove_if_exists temp (fold remove_if_exists initial_files w)"

text \<open>
  \<open>Inl\<close> is an exception leaving the function: line 123 opens the final file after the
  cleanup, and \<open>open\<close> raises \<open>FileNotFoundError\<close> on a path that is not there.
\<close>

definition live_check ::
  "'e shell \<Rightarrow> string \<Rightarrow> path list \<Rightarrow> 'e world \<Rightarrow> (py_exn + path option) \<times> 'e world" where
  "live_check sh target_domain initial_files w =
     (let live_subdomains_file = live_file target_domain
      in case run_command sh (httpx_command target_domain) ''httpx-toolkit''
                (py_print MsgCheckingLive w) of
           ((stdout, stderr, returncode), w1) \<Rightarrow>
             if returncode = 0 \<and> os_path_exists w1 live_subdomains_file
             then
               (let w2 = cleanup initial_files (temp_file target_domain)
                           (py_print (MsgLiveSaved live_subdomains_file) w1)
                in case files w2 live_subdomains_file of
                     None \<Rightarrow> (Inl FileNotFoundError, w2)
                   | Some content \<Rightarrow>
                       (Inr (Some live_subdomains_file),
                        py_print (MsgTotalLive (length (file_lines content))) w2))
             else
               (Inr None,
                cleanup initial_files (temp_file target_domain)
                  (py_print (MsgHttpxFailed (strip stderr)) w1)))"

subsection \<open>The whole function\<close>

text \<open>Lines 35 to 105: everything before the live check. \<open>None\<close> is the \<open>return None\<close> of line 60.\<close>

definition collect_subdomains ::
  "'e shell \<Rightarrow> (string set \<Rightarrow> string list) \<Rightarrow> string \<Rightarrow> 'e world
   \<Rightarrow> (string set \<times> path list) option \<times> 'e world" where
  "collect_subdomains sh iter target_domain w =
     (case initial_discovery sh target_domain w of
        (None, w1) \<Rightarrow> (None, w1)
      | (Some (unique_subdomains, initial_files), w1) \<Rightarrow>
          (case recursive_expansion sh iter target_domain unique_subdomains w1 of
             (unique1, w2) \<Rightarrow>
               (Some (unique1, initial_files), write_temp iter target_domain unique1 w2)))"

definition find_subdomains ::
  "'e shell \<Rightarrow> (string set \<Rightarrow> string list) \<Rightarrow> string \<Rightarrow> 'e world
   \<Rightarrow> (py_exn + path option) \<times> 'e world" where
  "find_subdomains sh iter target_domain w =
     (case collect_subdomains sh iter target_domain w of
        (None, w1) \<Rightarrow> (Inr None, w1)
      | (Some (unique_subdomains, initial_files), w1) \<Rightarrow>
          live_check sh target_domain initial_files w1)"

section \<open>Screenshot Step: \<open>screenshot_subdomains\<close> (lines 137 to 162)\<close>

text \<open>
  The function reads one line of standard input. It returns the lines not yet read, or
  the \<open>EOFError\<close> of \<open>input\<close>.
\<close>

definition screenshot_subdomains ::
  "'e shell \<Rightarrow> string \<Rightarrow> string list \<Rightarrow> 'e world \<Rightarrow> (py_exn + string list) \<times> 'e world" where
  "screenshot_subdomains sh target_domain inputs w =
     (let default_input_file = live_file target_domain
      in case py_input (PromptInputFile default_input_file) inputs w of
           (None, w1) \<Rightarrow> (Inl EOFError, w1)
         | (Some (line, rest), w1) \<Rightarrow>
             (let input_file = (if strip line = [] then default_input_file else strip line)
              in if \<not> os_path_exists w1 input_file
                 then (Inr rest, py_print (MsgInputFileNotFound input_file) w1)
                 else
                   (let output_dir = ''screenshots_'' @ target_domain;
                        w2 = py_print (MsgScreenshotsSavedTo output_dir)
                               (py_print (MsgStartingScreenshot input_file) w1)
                    in case run_command sh
                              (''eyewitness -f '' @ input_file @ '' --web -d '' @ output_dir)
                              ''eyewitness'' w2 of
                         ((stdout, stderr, returncode), w3) \<Rightarrow>
                           if returncode = 0
                           then (Inr rest, py_print (MsgScreenshotDone output_dir) w3)
                           else
                             (let w4 = py_print (MsgScreenshotFailed (strip stderr)) w3
                              in if not_found_in stderr then (Inr rest, w4)
                                 else (Inr rest, w4)))))"

section \<open>Menu Driver: \<open>main\<close> (lines 164 to 196)\<close>

text \<open>
  Standard input is the list of the lines the user types. The loop of lines 175 to 196
  reads at least one line in every round, so on a finite input it ends: with choice 3, or
  with the \<open>EOFError\<close> of \<open>input\<close> when the lines run out.
\<close>

definition print_menu :: "'e world \<Rightarrow> 'e world" where
  "print_menu w = py_print MsgMenu3 (py_print MsgMenu2 (py_print MsgMenu1 (py_print MsgMainMenu w)))"

lemma py_input_shorter:
  "py_input prompt inputs w = (Some (line, rest), w') \<Longrightarrow> length rest < length inputs"
  by (auto simp: py_input_def split: list.splits)

lemma screenshot_subdomains_rest:
  "screenshot_subdomains sh target_domain inputs w = (Inr rest, w') \<Longrightarrow> length rest < length inputs"
  by (auto simp: screenshot_subdomains_def py_input_def Let_def
           split: list.splits prod.splits if_splits)

function menu_loop ::
  "'e shell \<Rightarrow> (string set \<Rightarrow> string list) \<Rightarrow> string \<Rightarrow> string list \<Rightarrow> 'e world
   \<Rightarrow> (py_exn + unit) \<times> 'e world" where
  "menu_loop sh iter target_domain inputs w =
     (case py_input PromptChoice inputs (print_menu w) of
        (None, w1) \<Rightarrow> (Inl EOFError, w1)
      | (Some (line, rest), w1) \<Rightarrow>
          (let choice = strip line
           in if choice = ''1'' then
                (case find_subdomains sh iter target_domain w1 of
                   (Inl e, w2) \<Rightarrow> (Inl e, w2)
                 | (Inr live_subdomains_file, w2) \<Rightarrow>
                     menu_loop sh iter target_domain rest
                       (case live_subdomains_file of
                          Some f \<Rightarrow> py_print (MsgFindingCompleted f) w2
                        | None \<Rightarrow> py_print MsgFindingFailed w2))
              else if choice = ''2'' then
                (case screenshot_subdomains sh target_domain rest w1 of
                   (Inl e, w2) \<Rightarrow> (Inl e, w2)
                 | (Inr rest2, w2) \<Rightarrow>
                     menu_loop sh iter target_domain rest2 (py_print MsgScreenshotFinished w2))
              else if choice = ''3'' then (Inr (), py_print MsgGoodbye w1)
              else menu_loop sh iter target_domain rest (py_print MsgInvalidChoice w1)))"
  by pat_completeness auto
termination
proof (relation "measure (\<lambda>(sh, iter, target_domain, inputs, w). length inputs)", goal_cases)
  case 1
  show ?case by simp
next
  case (2 sh iter target_domain inputs w x y x2 xa ya xb xc yb b)
  then show ?case
    using py_input_shorter [of PromptChoice inputs "print_menu w" xa ya y] by simp
next
  case (3 sh iter target_domain inputs w x y x2 xa ya xb xc yb b)
  then show ?case
    using py_input_shorter [of PromptChoice inputs "print_menu w" xa ya y]
      screenshot_subdomains_rest [of sh target_domain ya y b yb] by simp
next
  case (4 sh iter target_domain inputs w x y x2 xa ya xb)
  then show ?case
    using py_input_shorter [of PromptChoice inputs "print_menu w" xa ya y] by simp
qed

declare menu_loop.simps [simp del]

definition main ::
  "'e shell \<Rightarrow> (string set \<Rightarrow> string list) \<Rightarrow> string list \<Rightarrow> 'e world
   \<Rightarrow> (py_exn + unit) \<times> 'e world" where
  "main sh iter inputs w =
     (case py_input PromptDomain inputs
             (py_print MsgRule (py_print MsgHelps (py_print MsgWelcome w))) of
        (None, w1) \<Rightarrow> (Inl EOFError, w1)
      | (Some (line, rest), w1) \<Rightarrow>
          (let target_domain = strip line
           in if target_domain = [] then (Inr (), py_print MsgDomainEmpty w1)
              else menu_loop sh iter target_domain rest w1))"

section \<open>Notions used in the statements, and example worlds\<close>

text \<open>The trimmed lines of a file, none when the file is absent.\<close>

definition trimmed_lines :: "string option \<Rightarrow> string set" where
  "trimmed_lines file = (case file of None \<Rightarrow> {} | Some content \<Rightarrow> set (map strip (file_lines content)))"

text \<open>
  What step 1 reads from a tool's output file, given the triple \<open>run_command\<close> returned
  for the tool: the trimmed lines when the exit code is zero, nothing otherwise.
\<close>

definition lines_read :: "run_result \<Rightarrow> string option \<Rightarrow> string set" where
  "lines_read r file = (case r of (stdout, stderr, returncode) \<Rightarrow>
     if returncode = 0 then trimmed_lines file else {})"

text \<open>
  The condition under which step 1 returns at line 60: the tool did not succeed (exit
  code not zero, or no output file) and its error text contains "not found".
\<close>

definition tool_missing :: "run_result \<Rightarrow> string option \<Rightarrow> bool" where
  "tool_missing r file = (case r of (stdout, stderr, returncode) \<Rightarrow>
     (if returncode = 0 then file = None else True) \<and> not_found_in stderr)"

text \<open>A world with no files, nothing run and nothing printed.\<close>

definition empty_world :: "unit world" where
  "empty_world = \<lparr>files = Map.empty, env = (), invoked = [], console = []\<rparr>"

text \<open>
  The tools of the example of the specification for \<open>example.com\<close>: subfinder reports
  \<open>a.example.com\<close> and \<open>b.example.com\<close>, amass reports \<open>b.example.com\<close> and \<open>example.com\<close>,
  subfinder finds \<open>x.a.example.com\<close> below \<open>a.example.com\<close>, and the probe finds every host
  alive.
\<close>

definition example_sh :: "unit shell" where
  "example_sh command st =
     (if command = initial_subfinder_cmd ''example.com''
      then (Completed [] [] 0,
            (fst st)(subfinder_file ''example.com'' \<mapsto>
               ''a.example.com'' @ [LF] @ ''b.example.com'' @ [LF]), ())
      else if command = initial_amass_cmd ''example.com''
      then (Completed [] [] 0,
            (fst st)(amass_file ''example.com'' \<mapsto>
               ''b.example.com'' @ [LF] @ ''example.com'' @ [LF]), ())
      else if command = httpx_command ''example.com''
      then (case fst st (temp_file ''example.com'') of
              None \<Rightarrow> (Completed [] ''no input'' 1, fst st, ())
            | Some hosts \<Rightarrow>
                (Completed [] [] 0, (fst st)(live_file ''example.com'' \<mapsto> hosts), ()))
      else if command = subfinder_cmd ''a.example.com''
      then (Completed (''x.a.example.com'' @ [LF]) [] 0, fst st, ())
      else (Completed [] [] 0, fst st, ()))"

text \<open>
  Tools that all exit with code 1; subfinder has written one line to its output file
  before failing.
\<close>

definition failing_sh :: "unit shell" where
  "failing_sh command st =
     (if command = initial_subfinder_cmd ''example.com''
      then (Completed [] ''rate limited'' 1,
            (fst st)(subfinder_file ''example.com'' \<mapsto> ''a.example.com'' @ [LF]), ())
      else (Completed [] [] 1, fst st, ()))"

lemmas path_defs = subfinder_file_def amass_file_def temp_file_def live_file_def
lemmas cmd_defs = initial_subfinder_cmd_def initial_amass_cmd_def httpx_command_def
  subfinder_cmd_def amass_cmd_def
lemmas str_defs = strip_def isspace_def lower_def lower_char_def not_found_in_def
  file_lines_def splitlines_def is_linebreak_def LF_def CR_def

text \<open>The two commands that step 2 runs against one host.\<close>

definition expansion_commands :: "string \<Rightarrow> string list" where
  "expansion_commands sub = [subfinder_cmd sub, amass_cmd sub]"

text \<open>
  What one tool invocation of step 2 contributes to \<open>newly_found_subdomains\<close>, given the
  triple \<open>run_command\<close> returned.
\<close>

definition found_lines :: "run_result \<Rightarrow> string set" where
  "found_lines r = (case r of (stdout, stderr, returncode) \<Rightarrow> add_stdout_lines stdout returncode {})"

text \<open>Every launch raises \<open>FileNotFoundError\<close>.\<close>

definition no_shell_sh :: "unit shell" where
  "no_shell_sh command st = (RaisedFileNotFoundError, fst st, ())"

text \<open>
  Subfinder succeeds and its output file ends with a blank line; every other command exits
  with code 1.
\<close>

definition blank_line_sh :: "unit shell" where
  "blank_line_sh command st =
     (if command = initial_subfinder_cmd ''example.com''
      then (Completed [] [] 0,
            (fst st)(subfinder_file ''example.com'' \<mapsto> ''a.example.com'' @ [LF, LF]), ())
      else (Completed [] [] 1, fst st, ()))"

text \<open>
  Every command exits with code 1; the probe has written one host to the final file
  before failing.
\<close>

definition partial_probe_sh :: "unit shell" where
  "partial_probe_sh command st =
     (if command = httpx_command ''example.com''
      then (Completed [] ''timeout'' 1,
            (fst st)(live_file ''example.com'' \<mapsto> ''example.com'' @ [LF]), ())
      else (Completed [] [] 1, fst st, ()))"



text \<open>
  Subfinder is not installed (the shell exits with 127 and "not found"); amass works and
  finds one host below \<open>a.example.com\<close>.
\<close>

definition missing_subfinder_sh :: "unit shell" where
  "missing_subfinder_sh command st =
     (if take 9 command = ''subfinder''
      then (Completed [] ''sh: 1: subfinder: not found'' 127, fst st, ())
      else if command = amass_cmd ''a.example.com''
      then (Completed (''x.a.example.com'' @ [LF]) [] 0, fst st, ())
      else (Completed [] [] 0, fst st, ()))"

lemmas eval_defs = collect_subdomains_def initial_discovery_def tools_def initial_loop.simps
  recursive_expansion_def recursive_loop.simps add_stdout_lines_def run_command_def
  find_subdomains_def live_check_def cleanup_def remove_if_exists_def os_remove_def
  os_path_exists_def write_temp_def write_lines_def
  empty_world_def cmd_defs path_defs Let_def tool_label_def py_print_def str_defs



section \<open>Lemmas about the model\<close>

subsection \<open>The world and the Command Runner\<close>

lemma py_print_proj [simp]:
  "files (py_print m w) = files w" "env (py_print m w) = env w"
  "invoked (py_print m w) = invoked w" "console (py_print m w) = console w @ [m]"
  by (simp_all add: py_print_def)

lemma os_path_exists_py_print [simp]: "os_path_exists (py_print m w) p = os_path_exists w p"
  by (simp add: os_path_exists_def)

lemma run_command_proj:
  assumes "sh command (files w, env w) = (p, fs', env')"
  shows "\<exists>w'. run_command sh command error_message w = (returned p, w') \<and> files w' = fs'
           \<and> env w' = env' \<and> invoked w' = invoked w @ [command]"
  using assms by (cases p) (simp_all add: run_command_def returned_def)

text \<open>
  On a console that takes every message, \<open>run_command\<close> runs the command once and returns
  the triple \<open>returned\<close> gives for the outcome of \<open>subprocess.run\<close>.
\<close>

lemma run_command_returned:
  "fst (run_command sh command error_message w) = returned (fst (sh command (files w, env w)))
   \<and> invoked (snd (run_command sh command error_message w)) = invoked w @ [command]
   \<and> returned (Completed out err rc) = (if rc \<noteq> 0 \<and> not_found_in err then None else Some out, err, rc)
   \<and> returned RaisedFileNotFoundError = (None, ''FileNotFoundError'', 127)
   \<and> returned (RaisedException e) = (None, e, 1)"
proof -
  obtain p fs' env' where sh: "sh command (files w, env w) = (p, fs', env')"
    by (cases "sh command (files w, env w)") auto
  from run_command_proj [of sh command w p fs' env' error_message] sh
  have "fst (run_command sh command error_message w) = returned (fst (sh command (files w, env w)))"
    and "invoked (snd (run_command sh command error_message w)) = invoked w @ [command]"
    using sh by auto
  then show ?thesis
    by (simp add: returned_def)
qed

subsection \<open>Step 1\<close>

lemma fold_insert_strip:
  "fold (\<lambda>line u. insert (strip line) u) ls U = U \<union> set (map strip ls)"
  by (induction ls arbitrary: U) auto

lemma initial_loop_success:
  assumes "sh command (files w, env w) = (p, fs', env')" and "returned p = (out, err, 0)"
    and "fs' (target_domain @ ''_'' @ tool_name @ ''.txt'') = Some content"
  shows "\<exists>w'. files w' = fs' \<and> env w' = env' \<and> invoked w' = invoked w @ [command] \<and>
     initial_loop sh target_domain ((tool_name, command) # rest) U fl w =
     initial_loop sh target_domain rest (U \<union> set (map strip (file_lines content)))
       (fl @ [target_domain @ ''_'' @ tool_name @ ''.txt'']) w'"
proof -
  obtain w1 where "run_command sh command (tool_label tool_name) (py_print (MsgRunning tool_name) w) = (returned p, w1)"
    "files w1 = fs'" "env w1 = env'" "invoked w1 = invoked w @ [command]"
    using run_command_proj [of sh command "py_print (MsgRunning tool_name) w" p fs' env'] assms(1)
    by auto
  then show ?thesis using assms(2,3)
    by (intro exI [of _ "py_print (MsgToolCompleted tool_name (target_domain @ ''_'' @ tool_name @ ''.txt'')) w1"])
       (simp add: fold_insert_strip Let_def initial_loop.simps)
qed

lemma initial_loop_failure:
  assumes "sh command (files w, env w) = (p, fs', env')" and "returned p = (out, err, rc)"
    and "rc \<noteq> 0 \<or> fs' (target_domain @ ''_'' @ tool_name @ ''.txt'') = None"
  shows "\<exists>w'. files w' = fs' \<and> env w' = env' \<and> invoked w' = invoked w @ [command] \<and>
     initial_loop sh target_domain ((tool_name, command) # rest) U fl w =
     (if not_found_in err then (None, w')
      else initial_loop sh target_domain rest U (fl @ [target_domain @ ''_'' @ tool_name @ ''.txt'']) w')"
proof -
  obtain w1 where "run_command sh command (tool_label tool_name) (py_print (MsgRunning tool_name) w) = (returned p, w1)"
    "files w1 = fs'" "env w1 = env'" "invoked w1 = invoked w @ [command]"
    using run_command_proj [of sh command "py_print (MsgRunning tool_name) w" p fs' env'] assms(1)
    by auto
  then show ?thesis using assms(2,3)
    by (intro exI [of _ "py_print (MsgToolFailed tool_name (strip err)) w1"]) (auto simp: Let_def initial_loop.simps)
qed

declare initial_loop.simps [simp del]

lemma initial_loop_step:
  assumes "sh command (files w, env w) = (p, fs', env')"
  shows "\<exists>w'. files w' = fs' \<and> env w' = env' \<and> invoked w' = invoked w @ [command] \<and>
     initial_loop sh target_domain ((tool_name, command) # rest) U fl w =
     (if tool_missing (returned p) (fs' (target_domain @ ''_'' @ tool_name @ ''.txt''))
      then (None, w')
      else initial_loop sh target_domain rest
             (U \<union> lines_read (returned p) (fs' (target_domain @ ''_'' @ tool_name @ ''.txt'')))
             (fl @ [target_domain @ ''_'' @ tool_name @ ''.txt'']) w')"
proof -
  obtain out err rc where r: "returned p = (out, err, rc)"
    by (cases "returned p") auto
  show ?thesis
  proof (cases "rc = 0 \<and> fs' (target_domain @ ''_'' @ tool_name @ ''.txt'') \<noteq> None")
    case True
    then obtain content where "fs' (target_domain @ ''_'' @ tool_name @ ''.txt'') = Some content"
      by auto
    with True r assms initial_loop_success [where sh = sh and command = command and w = w
        and p = p and fs' = fs' and env' = env' and out = out and err = err
        and target_domain = target_domain and tool_name = tool_name and content = content
        and rest = rest and U = U and fl = fl]
    show ?thesis
      by (auto simp: tool_missing_def lines_read_def trimmed_lines_def)
  next
    case False
    with r assms initial_loop_failure [where sh = sh and command = command and w = w
        and p = p and fs' = fs' and env' = env' and out = out and err = err and rc = rc
        and target_domain = target_domain and tool_name = tool_name
        and rest = rest and U = U and fl = fl]
    show ?thesis
      by (auto simp: tool_missing_def lines_read_def trimmed_lines_def)
  qed
qed

lemma initial_discovery_char:
  assumes s1: "sh (initial_subfinder_cmd d) (files w, env w) = (p1, fs1, env1)"
    and s2: "sh (initial_amass_cmd d) (fs1, env1) = (p2, fs2, env2)"
  shows "\<exists>w'. initial_discovery sh d w =
     (if tool_missing (returned p1) (fs1 (subfinder_file d)) then (None, w')
      else if tool_missing (returned p2) (fs2 (amass_file d)) then (None, w')
      else (Some (insert d (lines_read (returned p1) (fs1 (subfinder_file d))
                            \<union> lines_read (returned p2) (fs2 (amass_file d))),
                  [subfinder_file d, amass_file d]), w'))
     \<and> files w' = (if tool_missing (returned p1) (fs1 (subfinder_file d)) then fs1 else fs2)
     \<and> env w' = (if tool_missing (returned p1) (fs1 (subfinder_file d)) then env1 else env2)
     \<and> invoked w' = invoked w @
           (if tool_missing (returned p1) (fs1 (subfinder_file d)) then [initial_subfinder_cmd d]
            else [initial_subfinder_cmd d, initial_amass_cmd d])"
proof -
  let ?w0 = "py_print MsgRunningInitial (py_print (MsgStarting d) w)"
  let ?c1 = "initial_subfinder_cmd d" and ?c2 = "initial_amass_cmd d"
  have t: "tools d = [(''subfinder'', ?c1), (''amass'', ?c2)]"
    by (simp add: tools_def)
  have f: "d @ ''_'' @ ''subfinder'' @ ''.txt'' = subfinder_file d"
      "d @ ''_'' @ ''amass'' @ ''.txt'' = amass_file d"
    by (simp_all add: subfinder_file_def amass_file_def)
  from s1 have "sh ?c1 (files ?w0, env ?w0) = (p1, fs1, env1)" by simp
  with initial_loop_step [where sh = sh and command = ?c1 and w = ?w0 and p = p1
      and fs' = fs1 and env' = env1 and target_domain = d and tool_name = "''subfinder''"
      and rest = "[(''amass'', ?c2)]" and U = "{}" and fl = "[]"]
  obtain w1 where w1: "files w1 = fs1" "env w1 = env1" "invoked w1 = invoked w @ [?c1]"
    and l1: "initial_loop sh d (tools d) {} [] ?w0 =
      (if tool_missing (returned p1) (fs1 (subfinder_file d)) then (None, w1)
       else initial_loop sh d [(''amass'', ?c2)]
              (lines_read (returned p1) (fs1 (subfinder_file d))) [subfinder_file d] w1)"
    unfolding f using t by auto
  from s2 w1 have "sh ?c2 (files w1, env w1) = (p2, fs2, env2)" by simp
  with initial_loop_step [where sh = sh and command = ?c2 and w = w1 and p = p2
      and fs' = fs2 and env' = env2 and target_domain = d and tool_name = "''amass''"
      and rest = "[]" and U = "lines_read (returned p1) (fs1 (subfinder_file d))"
      and fl = "[subfinder_file d]"]
  obtain w2 where w2: "files w2 = fs2" "env w2 = env2" "invoked w2 = invoked w1 @ [?c2]"
    and l2: "initial_loop sh d [(''amass'', ?c2)]
        (lines_read (returned p1) (fs1 (subfinder_file d))) [subfinder_file d] w1 =
      (if tool_missing (returned p2) (fs2 (amass_file d)) then (None, w2)
       else (Some (lines_read (returned p1) (fs1 (subfinder_file d))
                   \<union> lines_read (returned p2) (fs2 (amass_file d)),
                   [subfinder_file d, amass_file d]), w2))"
    unfolding f by (auto simp: initial_loop.simps)
  show ?thesis
  proof (cases "tool_missing (returned p1) (fs1 (subfinder_file d))")
    case True
    with l1 w1 show ?thesis
      by (intro exI [of _ w1]) (simp add: initial_discovery_def)
  next
    case m1: False
    show ?thesis
    proof (cases "tool_missing (returned p2) (fs2 (amass_file d))")
      case True
      with m1 l1 l2 w1 w2 show ?thesis
        by (intro exI [of _ w2]) (simp add: initial_discovery_def)
    next
      case False
      with m1 l1 l2 w1 w2 show ?thesis
        by (intro exI [of _ "py_print (MsgFoundInitially (card (insert d
              (lines_read (returned p1) (fs1 (subfinder_file d))
               \<union> lines_read (returned p2) (fs2 (amass_file d)))))) w2"])
           (simp add: initial_discovery_def Let_def)
    qed
  qed
qed

subsection \<open>The example of the specification\<close>

lemma example_sh_subfinder:
  "example_sh (initial_subfinder_cmd ''example.com'') (files empty_world, env empty_world) =
     (Completed [] [] 0,
      [subfinder_file ''example.com'' \<mapsto> ''a.example.com'' @ [LF] @ ''b.example.com'' @ [LF]], ())"
  by (simp add: example_sh_def empty_world_def)

lemma example_sh_amass:
  "example_sh (initial_amass_cmd ''example.com'')
     ([subfinder_file ''example.com'' \<mapsto> ''a.example.com'' @ [LF] @ ''b.example.com'' @ [LF]], ()) =
     (Completed [] [] 0,
      [subfinder_file ''example.com'' \<mapsto> ''a.example.com'' @ [LF] @ ''b.example.com'' @ [LF],
       amass_file ''example.com'' \<mapsto> ''b.example.com'' @ [LF] @ ''example.com'' @ [LF]], ())"
  by (simp add: example_sh_def cmd_defs path_defs)

lemma example_initial:
  "fst (initial_discovery example_sh ''example.com'' empty_world) =
     Some ({''a.example.com'', ''b.example.com'', ''example.com''},
           [subfinder_file ''example.com'', amass_file ''example.com''])"
  using initial_discovery_char [OF example_sh_subfinder example_sh_amass]
  apply (clarsimp simp add: returned_def tool_missing_def lines_read_def trimmed_lines_def path_defs str_defs)
  apply auto
  done

subsection \<open>Step 2\<close>

lemma run_command_invoked:
  "run_command sh command error_message w = (r, w') \<Longrightarrow> invoked w' = invoked w @ [command]"
  by (auto simp: run_command_def Let_def split: prod.splits proc_outcome.splits if_splits)

lemma fold_insert_nonblank:
  "fold (\<lambda>line n. if strip line \<noteq> [] then insert (strip line) n else n) ls N =
     N \<union> {s \<in> set (map strip ls). s \<noteq> []}"
  by (induction ls arbitrary: N) auto

lemma add_stdout_lines_union:
  "add_stdout_lines stdout returncode N = N \<union> add_stdout_lines stdout returncode {}"
  by (auto simp: add_stdout_lines_def fold_insert_nonblank split: option.splits)

lemma add_stdout_lines_failed:
  "returncode \<noteq> 0 \<or> stdout = None \<or> stdout = Some [] \<Longrightarrow>
     add_stdout_lines stdout returncode N = N"
  by (auto simp: add_stdout_lines_def split: option.splits)

lemma recursive_loop_skip:
  "recursive_loop sh d total_targets ((i, d) # rest) N w = recursive_loop sh d total_targets rest N w"
  by simp

lemma recursive_loop_step:
  assumes "sub \<noteq> d"
    and "sh (subfinder_cmd sub) (files w, env w) = (p1, fs1, env1)"
    and "sh (amass_cmd sub) (fs1, env1) = (p2, fs2, env2)"
  shows "\<exists>w'. recursive_loop sh d total_targets ((i, sub) # rest) N w =
           recursive_loop sh d total_targets rest
             (N \<union> found_lines (returned p1) \<union> found_lines (returned p2)) w'
         \<and> files w' = fs2 \<and> env w' = env2
         \<and> invoked w' = invoked w @ expansion_commands sub"
proof -
  let ?w1 = "py_print (MsgProgress sub (i + 1) total_targets) w"
  from assms(2) have "sh (subfinder_cmd sub) (files ?w1, env ?w1) = (p1, fs1, env1)" by simp
  with run_command_proj [where sh = sh and command = "subfinder_cmd sub" and w = ?w1
      and p = p1 and fs' = fs1 and env' = env1 and error_message = "''subfinder''"]
  obtain w2 where w2: "run_command sh (subfinder_cmd sub) ''subfinder'' ?w1 = (returned p1, w2)"
    "files w2 = fs1" "env w2 = env1" "invoked w2 = invoked w @ [subfinder_cmd sub]"
    by auto
  from assms(3) w2 have "sh (amass_cmd sub) (files w2, env w2) = (p2, fs2, env2)" by simp
  with run_command_proj [where sh = sh and command = "amass_cmd sub" and w = w2
      and p = p2 and fs' = fs2 and env' = env2 and error_message = "''amass''"]
  obtain w3 where w3: "run_command sh (amass_cmd sub) ''amass'' w2 = (returned p2, w3)"
    "files w3 = fs2" "env w3 = env2" "invoked w3 = invoked w2 @ [amass_cmd sub]"
    by auto
  obtain o1 e1 r1 where r1: "returned p1 = (o1, e1, r1)" by (cases "returned p1") auto
  obtain o2 e2 r2 where r2: "returned p2 = (o2, e2, r2)" by (cases "returned p2") auto
  have "add_stdout_lines o2 r2 (add_stdout_lines o1 r1 N) =
      N \<union> found_lines (returned p1) \<union> found_lines (returned p2)"
    using add_stdout_lines_union [of o1 r1 N]
      add_stdout_lines_union [of o2 r2 "N \<union> add_stdout_lines o1 r1 {}"]
    by (simp add: found_lines_def r1 r2)
  with assms(1) w2 w3 r1 r2 show ?thesis
    by (intro exI [of _ w3]) (simp add: Let_def expansion_commands_def)
qed

declare recursive_loop.simps [simp del]

lemma recursive_loop_invoked:
  "invoked (snd (recursive_loop sh d total_targets xs N w)) =
     invoked w @ concat (map expansion_commands (filter (\<lambda>s. s \<noteq> d) (map snd xs)))"
proof (induction xs arbitrary: N w)
  case Nil
  show ?case by (simp add: recursive_loop.simps)
next
  case (Cons x xs)
  obtain i sub where x: "x = (i, sub)" by (cases x) auto
  show ?case
  proof (cases "sub = d")
    case True
    with Cons x show ?thesis by (simp add: recursive_loop_skip)
  next
    case False
    obtain p1 fs1 env1 where s1: "sh (subfinder_cmd sub) (files w, env w) = (p1, fs1, env1)"
      by (cases "sh (subfinder_cmd sub) (files w, env w)") auto
    obtain p2 fs2 env2 where s2: "sh (amass_cmd sub) (fs1, env1) = (p2, fs2, env2)"
      by (cases "sh (amass_cmd sub) (fs1, env1)") auto
    from recursive_loop_step [where sh = sh and sub = sub and d = d and w = w and ?p1.0 = p1
        and ?fs1.0 = fs1 and ?env1.0 = env1 and ?p2.0 = p2 and ?fs2.0 = fs2 and ?env2.0 = env2
        and total_targets = total_targets and i = i and rest = xs and N = N] False s1 s2
    obtain w' where "recursive_loop sh d total_targets ((i, sub) # xs) N w =
           recursive_loop sh d total_targets xs
             (N \<union> found_lines (returned p1) \<union> found_lines (returned p2)) w'"
      "invoked w' = invoked w @ expansion_commands sub"
      by auto
    with Cons False x show ?thesis by simp
  qed
qed

lemma recursive_loop_keeps:
  assumes "\<forall>c st. fst (snd (sh c st)) q = fst st q"
  shows "files (snd (recursive_loop sh d total_targets xs N w)) q = files w q"
proof (induction xs arbitrary: N w)
  case Nil
  show ?case by (simp add: recursive_loop.simps)
next
  case (Cons x xs)
  obtain i sub where x: "x = (i, sub)" by (cases x) auto
  show ?case
  proof (cases "sub = d")
    case True
    with Cons x show ?thesis by (simp add: recursive_loop_skip)
  next
    case False
    obtain p1 fs1 env1 where s1: "sh (subfinder_cmd sub) (files w, env w) = (p1, fs1, env1)"
      by (cases "sh (subfinder_cmd sub) (files w, env w)") auto
    obtain p2 fs2 env2 where s2: "sh (amass_cmd sub) (fs1, env1) = (p2, fs2, env2)"
      by (cases "sh (amass_cmd sub) (fs1, env1)") auto
    from recursive_loop_step [where sh = sh and sub = sub and d = d and w = w and ?p1.0 = p1
        and ?fs1.0 = fs1 and ?env1.0 = env1 and ?p2.0 = p2 and ?fs2.0 = fs2 and ?env2.0 = env2
        and total_targets = total_targets and i = i and rest = xs and N = N] False s1 s2
    obtain w' where "recursive_loop sh d total_targets ((i, sub) # xs) N w =
           recursive_loop sh d total_targets xs
             (N \<union> found_lines (returned p1) \<union> found_lines (returned p2)) w'"
      "files w' = fs2"
      by auto
    moreover have "fs2 q = files w q"
      using assms s1 s2 by (metis fst_conv snd_conv)
    ultimately show ?thesis using Cons x by simp
  qed
qed

subsection \<open>Step 3\<close>

lemma live_file_distinct:
  "subfinder_file d \<noteq> live_file d" "amass_file d \<noteq> live_file d" "temp_file d \<noteq> live_file d"
  by (simp_all add: path_defs)

lemma intermediate_files_distinct:
  "subfinder_file d \<noteq> amass_file d" "subfinder_file d \<noteq> temp_file d" "amass_file d \<noteq> temp_file d"
  by (simp_all add: path_defs)

lemma remove_if_exists_files [simp]: "files (remove_if_exists f w) = (files w)(f := None)"
  by (auto simp: remove_if_exists_def os_remove_def os_path_exists_def)

lemma remove_if_exists_proj [simp]:
  "env (remove_if_exists f w) = env w" "invoked (remove_if_exists f w) = invoked w"
  "console (remove_if_exists f w) = console w"
  by (simp_all add: remove_if_exists_def os_remove_def)

lemma cleanup_files:
  "files (cleanup [f1, f2] t w) = (files w)(f1 := None, f2 := None, t := None)"
  by (simp add: cleanup_def)

lemma cleanup_proj [simp]:
  "env (cleanup [f1, f2] t w) = env w" "invoked (cleanup [f1, f2] t w) = invoked w"
  by (simp_all add: cleanup_def)

lemma live_check_char:
  assumes "sh (httpx_command d) (files w, env w) = (p, fs3, env3)"
  shows "\<exists>w'. live_check sh d [subfinder_file d, amass_file d] w =
           (Inr (if snd (snd (returned p)) = 0 \<and> fs3 (live_file d) \<noteq> None
                 then Some (live_file d) else None), w')
         \<and> files w' = fs3(subfinder_file d := None, amass_file d := None, temp_file d := None)
         \<and> env w' = env3 \<and> invoked w' = invoked w @ [httpx_command d]"
proof -
  let ?w0 = "py_print MsgCheckingLive w"
  from assms have "sh (httpx_command d) (files ?w0, env ?w0) = (p, fs3, env3)" by simp
  with run_command_proj [where sh = sh and command = "httpx_command d" and w = ?w0
      and p = p and fs' = fs3 and env' = env3 and error_message = "''httpx-toolkit''"]
  obtain w1 where w1: "run_command sh (httpx_command d) ''httpx-toolkit'' ?w0 = (returned p, w1)"
    "files w1 = fs3" "env w1 = env3" "invoked w1 = invoked w @ [httpx_command d]"
    by auto
  obtain out err rc where r: "returned p = (out, err, rc)" by (cases "returned p") auto
  show ?thesis
  proof (cases "rc = 0 \<and> fs3 (live_file d) \<noteq> None")
    case True
    then obtain content where c: "fs3 (live_file d) = Some content" by auto
    let ?w2 = "cleanup [subfinder_file d, amass_file d] (temp_file d)
                 (py_print (MsgLiveSaved (live_file d)) w1)"
    have "files ?w2 (live_file d) = Some content"
      using c w1 live_file_distinct [of d] by (simp add: cleanup_files)
    with True w1 r show ?thesis
      by (intro exI [of _ "py_print (MsgTotalLive (length (file_lines content))) ?w2"])
         (simp add: live_check_def Let_def os_path_exists_def cleanup_files)
  next
    case False
    with w1 r show ?thesis
      by (intro exI [of _ "cleanup [subfinder_file d, amass_file d] (temp_file d)
                 (py_print (MsgHttpxFailed (strip err)) w1)"])
         (auto simp: live_check_def Let_def os_path_exists_def cleanup_files)
  qed
qed

lemma write_temp_proj [simp]:
  "env (write_temp iter d U w) = env w" "invoked (write_temp iter d U w) = invoked w"
  "files (write_temp iter d U w) =
     (files w)(temp_file d \<mapsto> concat (map (\<lambda>sub. sub @ [LF]) (sort (iter U))))"
  by (simp_all add: write_temp_def write_lines_def)

lemma recursive_expansion_invoked:
  "invoked (snd (recursive_expansion sh iter d U w)) =
     invoked w @ concat (map expansion_commands (filter (\<lambda>s. s \<noteq> d) (iter U)))"
proof -
  let ?xs = "enumerate 0 (iter U)"
  let ?r = "recursive_loop sh d (length (iter U)) ?xs {} (py_print MsgStartingRecursive w)"
  have "invoked (snd ?r) = invoked w @ concat (map expansion_commands (filter (\<lambda>s. s \<noteq> d) (iter U)))"
    using recursive_loop_invoked [of sh d "length (iter U)" ?xs "{}" "py_print MsgStartingRecursive w"]
    by simp
  then show ?thesis
    by (cases ?r) (simp add: recursive_expansion_def Let_def)
qed

lemma recursive_expansion_keeps:
  assumes "\<forall>c st. fst (snd (sh c st)) q = fst st q"
  shows "files (snd (recursive_expansion sh iter d U w)) q = files w q"
proof -
  let ?xs = "enumerate 0 (iter U)"
  let ?r = "recursive_loop sh d (length (iter U)) ?xs {} (py_print MsgStartingRecursive w)"
  have "files (snd ?r) q = files w q"
    using recursive_loop_keeps [OF assms, of d "length (iter U)" ?xs "{}" "py_print MsgStartingRecursive w"]
    by simp
  then show ?thesis
    by (cases ?r) (simp add: recursive_expansion_def Let_def)
qed

lemma recursive_expansion_superset:
  "U \<subseteq> fst (recursive_expansion sh iter d U w)"
  by (auto simp: recursive_expansion_def Let_def split: prod.splits)

subsection \<open>The whole function\<close>

lemma initial_discovery_Some:
  assumes "fst (initial_discovery sh d w) = Some (U, fl)"
  shows "fl = [subfinder_file d, amass_file d]
       \<and> invoked (snd (initial_discovery sh d w)) =
           invoked w @ [initial_subfinder_cmd d, initial_amass_cmd d]
       \<and> d \<in> U"
proof -
  obtain p1 fs1 env1 where s1: "sh (initial_subfinder_cmd d) (files w, env w) = (p1, fs1, env1)"
    by (cases "sh (initial_subfinder_cmd d) (files w, env w)") auto
  obtain p2 fs2 env2 where s2: "sh (initial_amass_cmd d) (fs1, env1) = (p2, fs2, env2)"
    by (cases "sh (initial_amass_cmd d) (fs1, env1)") auto
  from initial_discovery_char [where sh = sh and d = d and w = w and ?p1.0 = p1
      and ?fs1.0 = fs1 and ?env1.0 = env1 and ?p2.0 = p2 and ?fs2.0 = fs2 and ?env2.0 = env2]
    s1 s2 assms
  show ?thesis by (auto split: if_splits)
qed

lemma initial_discovery_keeps:
  assumes "\<forall>c st. fst (snd (sh c st)) q = fst st q"
  shows "files (snd (initial_discovery sh d w)) q = files w q"
proof -
  obtain p1 fs1 env1 where s1: "sh (initial_subfinder_cmd d) (files w, env w) = (p1, fs1, env1)"
    by (cases "sh (initial_subfinder_cmd d) (files w, env w)") auto
  obtain p2 fs2 env2 where s2: "sh (initial_amass_cmd d) (fs1, env1) = (p2, fs2, env2)"
    by (cases "sh (initial_amass_cmd d) (fs1, env1)") auto
  have "fs1 q = files w q" "fs2 q = fs1 q"
    using assms s1 s2 by (metis fst_conv snd_conv)+
  with initial_discovery_char [where sh = sh and d = d and w = w and ?p1.0 = p1
      and ?fs1.0 = fs1 and ?env1.0 = env1 and ?p2.0 = p2 and ?fs2.0 = fs2 and ?env2.0 = env2]
    s1 s2
  show ?thesis by (auto split: if_splits)
qed

lemma collect_subdomains_Some:
  assumes "collect_subdomains sh iter d w = (Some (U', fl), w3)"
  shows "\<exists>U. fst (initial_discovery sh d w) = Some (U, fl)
       \<and> U' = fst (recursive_expansion sh iter d U (snd (initial_discovery sh d w)))
       \<and> w3 = write_temp iter d U' (snd (recursive_expansion sh iter d U (snd (initial_discovery sh d w))))"
  using assms by (auto simp: collect_subdomains_def split: prod.splits option.splits)

lemma collect_subdomains_None:
  "fst (collect_subdomains sh iter d w) = None \<longleftrightarrow> fst (initial_discovery sh d w) = None"
  by (auto simp: collect_subdomains_def split: prod.splits option.splits)

lemma collect_subdomains_of_initial:
  assumes "fst (initial_discovery sh d w) = Some (U, fl)"
  shows "collect_subdomains sh iter d w =
     (Some (fst (recursive_expansion sh iter d U (snd (initial_discovery sh d w))), fl),
      write_temp iter d (fst (recursive_expansion sh iter d U (snd (initial_discovery sh d w))))
        (snd (recursive_expansion sh iter d U (snd (initial_discovery sh d w)))))"
  using assms by (auto simp: collect_subdomains_def split: prod.splits option.splits)

lemma find_subdomains_char:
  assumes c: "collect_subdomains sh iter d w = (Some (U', fl), w3)"
    and s: "sh (httpx_command d) (files w3, env w3) = (p, fs3, env3)"
  shows "\<exists>w'. find_subdomains sh iter d w =
           (Inr (if snd (snd (returned p)) = 0 \<and> fs3 (live_file d) \<noteq> None
                 then Some (live_file d) else None), w')
         \<and> files w' = fs3(subfinder_file d := None, amass_file d := None, temp_file d := None)
         \<and> env w' = env3 \<and> invoked w' = invoked w3 @ [httpx_command d]"
proof -
  from collect_subdomains_Some [OF c] initial_discovery_Some [of sh d w _ fl]
  have "fl = [subfinder_file d, amass_file d]" by blast
  with c have "find_subdomains sh iter d w = live_check sh d [subfinder_file d, amass_file d] w3"
    by (simp add: find_subdomains_def)
  with live_check_char [where sh = sh and d = d and w = w3 and p = p and ?fs3.0 = fs3
      and ?env3.0 = env3] s
  show ?thesis by simp
qed

lemma find_subdomains_invoked:
  assumes "fst (initial_discovery sh d w) = Some (U, fl)"
  shows "invoked (snd (find_subdomains sh iter d w)) =
     invoked w @ [initial_subfinder_cmd d, initial_amass_cmd d]
       @ concat (map expansion_commands (filter (\<lambda>s. s \<noteq> d) (iter U)))
       @ [httpx_command d]"
proof -
  let ?w1 = "snd (initial_discovery sh d w)"
  let ?U' = "fst (recursive_expansion sh iter d U ?w1)"
  let ?w2 = "snd (recursive_expansion sh iter d U ?w1)"
  let ?w3 = "write_temp iter d ?U' ?w2"
  have c: "collect_subdomains sh iter d w = (Some (?U', fl), ?w3)"
    using collect_subdomains_of_initial [OF assms] .
  obtain p fs3 env3 where s: "sh (httpx_command d) (files ?w3, env ?w3) = (p, fs3, env3)"
    by (cases "sh (httpx_command d) (files ?w3, env ?w3)") auto
  from find_subdomains_char [OF c s]
  have "invoked (snd (find_subdomains sh iter d w)) = invoked ?w3 @ [httpx_command d]"
    by auto
  moreover have "invoked ?w3 = invoked ?w1 @ concat (map expansion_commands (filter (\<lambda>s. s \<noteq> d) (iter U)))"
    by (simp add: recursive_expansion_invoked)
  moreover have "invoked ?w1 = invoked w @ [initial_subfinder_cmd d, initial_amass_cmd d]"
    using initial_discovery_Some [OF assms] by simp
  ultimately show ?thesis by simp
qed

text \<open>No exception leaves \<open>find_subdomains\<close>: the \<open>open\<close> of line 123 always finds its file.\<close>

lemma find_subdomains_never_raises:
  "\<exists>r. fst (find_subdomains sh iter d w) = Inr r"
proof (cases "fst (collect_subdomains sh iter d w)")
  case None
  then show ?thesis
    by (cases "collect_subdomains sh iter d w") (simp add: find_subdomains_def)
next
  case (Some a)
  obtain U' fl where a: "a = (U', fl)" by (cases a) auto
  let ?w3 = "snd (collect_subdomains sh iter d w)"
  have c: "collect_subdomains sh iter d w = (Some (U', fl), ?w3)"
    using Some a by (cases "collect_subdomains sh iter d w") simp
  obtain p fs3 env3 where s: "sh (httpx_command d) (files ?w3, env ?w3) = (p, fs3, env3)"
    by (cases "sh (httpx_command d) (files ?w3, env ?w3)") auto
  from find_subdomains_char [OF c s] show ?thesis by auto
qed

text \<open>
  The part of claim C2 that holds: when subfinder exits with a non-zero code and "not
  found" in its error text, \<open>find_subdomains\<close> returns no result at once; the only command
  run is subfinder's, and the files are as that command left them.
\<close>

lemma stderr_not_found_aborts:
  assumes "sh (initial_subfinder_cmd d) (files w, env w) = (Completed out err rc, fs1, env1)"
    and "rc \<noteq> 0" and "not_found_in err"
  shows "\<exists>w'. find_subdomains sh iter d w = (Inr None, w') \<and> files w' = fs1
           \<and> invoked w' = invoked w @ [initial_subfinder_cmd d]"
proof -
  obtain p2 fs2 env2 where s2: "sh (initial_amass_cmd d) (fs1, env1) = (p2, fs2, env2)"
    by (cases "sh (initial_amass_cmd d) (fs1, env1)") auto
  have "tool_missing (returned (Completed out err rc)) (fs1 (subfinder_file d))"
    using assms(2,3) by (simp add: tool_missing_def returned_def)
  with initial_discovery_char [where sh = sh and d = d and w = w
      and ?p1.0 = "Completed out err rc" and ?fs1.0 = fs1 and ?env1.0 = env1
      and ?p2.0 = p2 and ?fs2.0 = fs2 and ?env2.0 = env2] assms(1) s2
  obtain w' where "initial_discovery sh d w = (None, w')" "files w' = fs1"
    "invoked w' = invoked w @ [initial_subfinder_cmd d]"
    by auto
  then show ?thesis
    by (simp add: find_subdomains_def collect_subdomains_def)
qed

text \<open>
  The part of claim C3 that holds: the temporary file holds the members of the set in
  sorted order, each once, one per line.
\<close>

lemma temp_file_sorted_distinct:
  assumes "finite U" and "set (iter U) = U" and "distinct (iter U)"
  shows "files (write_temp iter d U w) (temp_file d) =
           Some (concat (map (\<lambda>sub. sub @ [LF]) (sorted_list_of_set U)))"
proof -
  have "sort (iter U) = sorted_list_of_set U"
    using assms by (metis sorted_list_of_set_sort_remdups distinct_remdups_id)
  then show ?thesis by simp
qed

lemma example_sorted:
  "sorted_list_of_set {''a.example.com'', ''b.example.com'', ''example.com''} =
     [''a.example.com'', ''b.example.com'', ''example.com'']"
  by simp

lemma example_collect:
  "collect_subdomains example_sh sorted_list_of_set ''example.com'' empty_world =
     (Some (fst (the (fst (collect_subdomains example_sh sorted_list_of_set ''example.com'' empty_world))),
            snd (the (fst (collect_subdomains example_sh sorted_list_of_set ''example.com'' empty_world)))),
      snd (collect_subdomains example_sh sorted_list_of_set ''example.com'' empty_world))"
  using collect_subdomains_of_initial [OF example_initial, of sorted_list_of_set]
  by simp

lemma example_temp:
  "files (snd (collect_subdomains example_sh sorted_list_of_set ''example.com'' empty_world)) =
     [subfinder_file ''example.com'' \<mapsto> ''a.example.com'' @ [LF] @ ''b.example.com'' @ [LF],
      amass_file ''example.com'' \<mapsto> ''b.example.com'' @ [LF] @ ''example.com'' @ [LF],
      temp_file ''example.com'' \<mapsto>
        ''a.example.com'' @ [LF] @ ''b.example.com'' @ [LF] @ ''example.com'' @ [LF]
        @ ''x.a.example.com'' @ [LF]]"
  by (simp add: eval_defs example_sh_def)

lemma collect_subdomains_keeps:
  assumes keep: "\<forall>c st. fst (snd (sh c st)) q = fst st q" and "q \<noteq> temp_file d"
  shows "files (snd (collect_subdomains sh iter d w)) q = files w q"
proof (cases "fst (initial_discovery sh d w)")
  case None
  then have "collect_subdomains sh iter d w = (None, snd (initial_discovery sh d w))"
    by (cases "initial_discovery sh d w") (simp add: collect_subdomains_def)
  then show ?thesis using initial_discovery_keeps [OF keep] by simp
next
  case (Some a)
  then obtain U fl where "fst (initial_discovery sh d w) = Some (U, fl)"
    by (cases a) auto
  from collect_subdomains_of_initial [OF this, of iter] assms(2)
    recursive_expansion_keeps [OF keep] initial_discovery_keeps [OF keep]
  show ?thesis by simp
qed

text \<open>
  When no external command touches the path of the final file, a final file that is there
  before the run is there after it, unchanged, whether the live check succeeds or fails.
\<close>

lemma quiet_tools_keep_final_file:
  assumes "\<forall>c st. fst (snd (sh c st)) (live_file d) = fst st (live_file d)"
    and "files w (live_file d) = Some content"
    and "collect_subdomains sh iter d w = (Some (U', fl), w3)"
    and "sh (httpx_command d) (files w3, env w3) = (p, fs3, env3)"
  shows "\<exists>w'. find_subdomains sh iter d w =
           (Inr (if snd (snd (returned p)) = 0 then Some (live_file d) else None), w')
         \<and> files w' = fs3(subfinder_file d := None, amass_file d := None, temp_file d := None)
         \<and> files w' (live_file d) = Some content"
proof -
  have "files w3 (live_file d) = files w (live_file d)"
    using collect_subdomains_keeps [OF assms(1), of d iter w] live_file_distinct(3) [of d] assms(3)
    by (metis snd_conv)
  moreover have "fs3 (live_file d) = files w3 (live_file d)"
    using assms(1,4) by (metis fst_conv snd_conv)
  ultimately have l: "fs3 (live_file d) = Some content"
    using assms(2) by simp
  from find_subdomains_char [OF assms(3,4)]
  obtain w' where w': "find_subdomains sh iter d w =
           (Inr (if snd (snd (returned p)) = 0 \<and> fs3 (live_file d) \<noteq> None
                 then Some (live_file d) else None), w')"
    "files w' = fs3(subfinder_file d := None, amass_file d := None, temp_file d := None)"
    by blast
  have "files w' (live_file d) = Some content"
    using w'(2) l live_file_distinct [of d] by (simp add: fun_upd_def)
  with w' l show ?thesis by auto
qed




lemma print_menu_proj [simp]:
  "files (print_menu w) = files w" "env (print_menu w) = env w"
  "invoked (print_menu w) = invoked w"
  by (simp_all add: print_menu_def)

subsection \<open>The Command Runner on any console\<close>








section \<open>The claims\<close>

text \<open>
  Claim C1, amended. Let the subfinder command end with outcome \<open>p1\<close> leaving the files
  \<open>fs1\<close>, and the amass command after it with outcome \<open>p2\<close> leaving \<open>fs2\<close>. If the initial
  discovery phase completes, its set is exactly the target domain together with the
  trimmed lines of the output file of each tool whose exit code was zero, each file
  read right after its tool ran; a tool that exits with another code contributes nothing,
  even when its output file exists. The target domain is always a member.
\<close>

theorem initial_discovery_union:
  assumes "sh (initial_subfinder_cmd d) (files w, env w) = (p1, fs1, env1)"
    and "sh (initial_amass_cmd d) (fs1, env1) = (p2, fs2, env2)"
    and "fst (initial_discovery sh d w) = Some (U, fl)"
  shows "U = insert d (lines_read (returned p1) (fs1 (subfinder_file d))
                       \<union> lines_read (returned p2) (fs2 (amass_file d)))
         \<and> d \<in> U"
  using initial_discovery_char [where sh = sh and d = d and w = w and ?p1.0 = p1
      and ?fs1.0 = fs1 and ?env1.0 = env1 and ?p2.0 = p2 and ?fs2.0 = fs2 and ?env2.0 = env2]
    assms
  by (auto split: if_splits)

text \<open>
  Claim C1 as stated fails when a tool exits with a non-zero code and an output file
  exists: subfinder's file holds the line \<open>a.example.com\<close>, and the set after the initial
  phase is only \<open>{example.com}\<close>.
\<close>

theorem initial_discovery_union_counterexample:
  "fst (initial_discovery failing_sh ''example.com'' empty_world) =
     Some ({''example.com''}, [subfinder_file ''example.com'', amass_file ''example.com''])
   \<and> trimmed_lines (files (snd (initial_discovery failing_sh ''example.com'' empty_world))
         (subfinder_file ''example.com'')) = {''a.example.com''}"
  by (simp add: eval_defs failing_sh_def trimmed_lines_def)

text \<open>
  The example of the specification: for \<open>example.com\<close>, with subfinder reporting
  \<open>a.example.com\<close>, \<open>b.example.com\<close> and amass reporting \<open>b.example.com\<close>, \<open>example.com\<close>, the
  set after the initial phase has exactly three members.
\<close>

theorem initial_discovery_union_witness:
  "fst (initial_discovery example_sh ''example.com'' empty_world) =
     Some ({''a.example.com'', ''b.example.com'', ''example.com''},
           [subfinder_file ''example.com'', amass_file ''example.com''])
   \<and> {''a.example.com'', ''b.example.com'', ''example.com''} =
       insert ''example.com''
         (lines_read (returned (Completed [] [] 0))
            (Some (''a.example.com'' @ [LF] @ ''b.example.com'' @ [LF]))
          \<union> lines_read (returned (Completed [] [] 0))
            (Some (''b.example.com'' @ [LF] @ ''example.com'' @ [LF])))
   \<and> card {''a.example.com'', ''b.example.com'', ''example.com''} = 3"
proof -
  let ?c1 = "''a.example.com'' @ [LF] @ ''b.example.com'' @ [LF]"
  let ?c2 = "''b.example.com'' @ [LF] @ ''example.com'' @ [LF]"
  have a: "[subfinder_file ''example.com'' \<mapsto> ?c1] (subfinder_file ''example.com'') = Some ?c1"
    by simp
  have b: "[subfinder_file ''example.com'' \<mapsto> ?c1, amass_file ''example.com'' \<mapsto> ?c2]
      (amass_file ''example.com'') = Some ?c2"
    by simp
  have t: "{''a.example.com'', ''b.example.com'', ''example.com''} =
       insert ''example.com''
         (lines_read (returned (Completed [] [] 0)) (Some ?c1)
          \<union> lines_read (returned (Completed [] [] 0)) (Some ?c2))"
    using initial_discovery_union [OF example_sh_subfinder example_sh_amass example_initial]
    unfolding a b by (rule conjunct1)
  have c: "card {''a.example.com'', ''b.example.com'', ''example.com''} = 3"
    by simp
  show ?thesis
    using example_initial t c by (intro conjI)
qed

text \<open>
  Claim C2 at a launch failure. \<open>run_command\<close> turns \<open>FileNotFoundError\<close> into the error
  text "FileNotFoundError", which does not contain "not found" (there is no space), so the
  test of line 59 fails: \<open>find_subdomains\<close> does not stop after the first tool but goes on
  to run amass and the probe.
\<close>

theorem launch_failure_not_aborted:
  "returned RaisedFileNotFoundError = (None, ''FileNotFoundError'', 127)
   \<and> not_found_in ''FileNotFoundError'' = False
   \<and> fst (find_subdomains no_shell_sh sorted_list_of_set ''example.com'' empty_world) = Inr None
   \<and> invoked (snd (find_subdomains no_shell_sh sorted_list_of_set ''example.com'' empty_world)) =
       [initial_subfinder_cmd ''example.com'', initial_amass_cmd ''example.com'',
        httpx_command ''example.com'']"
  by (simp add: eval_defs no_shell_sh_def returned_def first_word_def)

text \<open>
  Claim C3 at an output file with a blank line. Step 1 adds the trimmed blank line, the
  empty string, to the set (line 56 has no test like the one of lines 88 and 94), and the
  temporary full-set file starts with a blank line.
\<close>

theorem temp_file_blank_line:
  "fst (collect_subdomains blank_line_sh sorted_list_of_set ''example.com'' empty_world) =
     Some ({'''', ''a.example.com'', ''example.com''},
           [subfinder_file ''example.com'', amass_file ''example.com''])
   \<and> files (snd (collect_subdomains blank_line_sh sorted_list_of_set ''example.com'' empty_world))
       (temp_file ''example.com'') =
     Some ([LF] @ ''a.example.com'' @ [LF] @ ''example.com'' @ [LF])"
  by (simp add: eval_defs blank_line_sh_def insert_commute)

text \<open>
  Claim C4. Let the initial discovery phase complete with the set \<open>U\<close> (which contains the
  target domain), and let \<open>iter\<close> list exactly the members of \<open>U\<close>. Then the commands that
  \<open>find_subdomains\<close> runs are, in this order: the two initial commands, the two
  enumeration commands against each host of a list \<open>hosts\<close>, and the probe; and the hosts
  are exactly the members of \<open>U\<close> other than the target domain. So the target domain is
  never expanded, and no host that was first found during the expansion is expanded.
\<close>

theorem expansion_targets:
  assumes "fst (initial_discovery sh d w) = Some (U, fl)" and "set (iter U) = U"
  shows "\<exists>hosts. set hosts = U - {d}
     \<and> invoked (snd (find_subdomains sh iter d w)) =
         invoked w @ [initial_subfinder_cmd d, initial_amass_cmd d]
           @ concat (map expansion_commands hosts) @ [httpx_command d]"
proof -
  have "set (filter (\<lambda>s. s \<noteq> d) (iter U)) = U - {d}"
    using assms(2) by auto
  with find_subdomains_invoked [OF assms(1), of iter] show ?thesis
    by blast
qed

text \<open>
  Claim C4 at the example of the specification: the initial set is \<open>a.example.com\<close>,
  \<open>b.example.com\<close>, \<open>example.com\<close>; the expansion runs the tools against the first two
  only, although subfinder finds \<open>x.a.example.com\<close> on the way.
\<close>

theorem expansion_targets_witness:
  "set [''a.example.com'', ''b.example.com''] =
     {''a.example.com'', ''b.example.com'', ''example.com''} - {''example.com''}
   \<and> invoked (snd (find_subdomains example_sh sorted_list_of_set ''example.com'' empty_world)) =
       [initial_subfinder_cmd ''example.com'', initial_amass_cmd ''example.com'']
         @ concat (map expansion_commands [''a.example.com'', ''b.example.com''])
         @ [httpx_command ''example.com'']"
proof -
  let ?U = "{''a.example.com'', ''b.example.com'', ''example.com''}"
  have i: "set (sorted_list_of_set ?U) = ?U"
    by simp
  from expansion_targets [where iter = sorted_list_of_set, OF example_initial i]
  obtain hosts where h: "set hosts = ?U - {''example.com''}"
    "invoked (snd (find_subdomains example_sh sorted_list_of_set ''example.com'' empty_world)) =
       invoked empty_world @ [initial_subfinder_cmd ''example.com'', initial_amass_cmd ''example.com'']
         @ concat (map expansion_commands hosts) @ [httpx_command ''example.com'']"
    by blast
  have "invoked (snd (find_subdomains example_sh sorted_list_of_set ''example.com'' empty_world)) =
       [initial_subfinder_cmd ''example.com'', initial_amass_cmd ''example.com'']
         @ concat (map expansion_commands [''a.example.com'', ''b.example.com''])
         @ [httpx_command ''example.com'']"
    using find_subdomains_invoked [OF example_initial, of sorted_list_of_set]
    by (simp add: example_sorted empty_world_def)
  moreover have "set [''a.example.com'', ''b.example.com''] = ?U - {''example.com''}"
    by auto
  ultimately show ?thesis using h by (intro conjI)
qed

text \<open>
  Claim C5, amended. Let \<open>find_subdomains\<close> reach the live check in the world \<open>w3\<close>, and let
  the probe end with outcome \<open>p\<close> leaving the files \<open>fs3\<close>. Then \<open>find_subdomains\<close> raises
  nothing; it returns the path of the final file if the probe's exit code is zero and the
  final file exists, and no result otherwise; in both cases the three intermediate files
  are gone afterwards and the final file is exactly as the probe left it (present after
  a success; after a failure present or absent, as the probe left it).
\<close>

theorem live_check_cleanup:
  assumes "collect_subdomains sh iter d w = (Some (U', fl), w3)"
    and "sh (httpx_command d) (files w3, env w3) = (p, fs3, env3)"
  shows "\<exists>w'. find_subdomains sh iter d w =
           (Inr (if snd (snd (returned p)) = 0 \<and> fs3 (live_file d) \<noteq> None
                 then Some (live_file d) else None), w')
         \<and> files w' (subfinder_file d) = None \<and> files w' (amass_file d) = None
         \<and> files w' (temp_file d) = None
         \<and> files w' (live_file d) = fs3 (live_file d)"
proof -
  from find_subdomains_char [OF assms]
  obtain w' where w': "find_subdomains sh iter d w =
           (Inr (if snd (snd (returned p)) = 0 \<and> fs3 (live_file d) \<noteq> None
                 then Some (live_file d) else None), w')"
    "files w' = fs3(subfinder_file d := None, amass_file d := None, temp_file d := None)"
    by blast
  have "files w' (subfinder_file d) = None" "files w' (amass_file d) = None"
    "files w' (temp_file d) = None" "files w' (live_file d) = fs3 (live_file d)"
    using w'(2) live_file_distinct [of d] intermediate_files_distinct [of d]
    by (simp_all add: fun_upd_def)
  with w'(1) show ?thesis by blast
qed

text \<open>
  Claim C5 as stated fails when the probe writes the final file and then exits with a
  non-zero code: \<open>find_subdomains\<close> returns no result, and a final file that was not there
  before the run is there after it.
\<close>

theorem live_check_cleanup_counterexample:
  "files empty_world (live_file ''example.com'') = None
   \<and> fst (find_subdomains partial_probe_sh sorted_list_of_set ''example.com'' empty_world) = Inr None
   \<and> files (snd (find_subdomains partial_probe_sh sorted_list_of_set ''example.com'' empty_world))
       (live_file ''example.com'') = Some (''example.com'' @ [LF])"
  by (simp add: eval_defs partial_probe_sh_def returned_def)

text \<open>
  Claim C5 at the example of the specification: the probe succeeds, the three
  intermediate files are gone and the final file holds the four hosts.
\<close>

theorem live_check_cleanup_witness:
  "fst (find_subdomains example_sh sorted_list_of_set ''example.com'' empty_world) =
     Inr (Some (live_file ''example.com''))
   \<and> files (snd (find_subdomains example_sh sorted_list_of_set ''example.com'' empty_world))
       (subfinder_file ''example.com'') = None
   \<and> files (snd (find_subdomains example_sh sorted_list_of_set ''example.com'' empty_world))
       (amass_file ''example.com'') = None
   \<and> files (snd (find_subdomains example_sh sorted_list_of_set ''example.com'' empty_world))
       (temp_file ''example.com'') = None
   \<and> files (snd (find_subdomains example_sh sorted_list_of_set ''example.com'' empty_world))
       (live_file ''example.com'') =
     Some (''a.example.com'' @ [LF] @ ''b.example.com'' @ [LF] @ ''example.com'' @ [LF]
           @ ''x.a.example.com'' @ [LF])"
proof -
  let ?hosts = "''a.example.com'' @ [LF] @ ''b.example.com'' @ [LF] @ ''example.com'' @ [LF]
           @ ''x.a.example.com'' @ [LF]"
  let ?w3 = "snd (collect_subdomains example_sh sorted_list_of_set ''example.com'' empty_world)"
  have s: "example_sh (httpx_command ''example.com'') (files ?w3, env ?w3) =
      (Completed [] [] 0, (files ?w3)(live_file ''example.com'' \<mapsto> ?hosts), ())"
    by (simp add: example_temp) (simp add: example_sh_def cmd_defs path_defs)
  from live_check_cleanup [OF example_collect s] show ?thesis
    by (auto simp: returned_def)
qed




text \<open>
  Claim C7. If the input file of the Screenshot Step (the line typed, trimmed, or the
  default path when that is empty) does not exist, \<open>screenshot_subdomains\<close> prints the
  prompt and the error and returns: the world is otherwise unchanged, so no command is run.
  Only this step ends: called from the menu (choice 2), the menu loop goes on with the
  next line of input.
\<close>

theorem screenshot_missing_input:
  assumes "files w (if strip line = [] then live_file d else strip line) = None"
  shows "screenshot_subdomains sh d (line # rest) w =
           (Inr rest,
            py_print (MsgInputFileNotFound (if strip line = [] then live_file d else strip line))
              (py_print (PromptInputFile (live_file d)) w))
       \<and> invoked (snd (screenshot_subdomains sh d (line # rest) w)) = invoked w
       \<and> (strip choice = ''2'' \<longrightarrow>
            menu_loop sh iter d (choice # line # rest) w =
            menu_loop sh iter d rest
              (py_print MsgScreenshotFinished
                (py_print (MsgInputFileNotFound (if strip line = [] then live_file d else strip line))
                  (py_print (PromptInputFile (live_file d))
                    (py_print PromptChoice (print_menu w))))))"
proof -
  have s: "\<And>w0 :: 'a world. files w0 = files w \<Longrightarrow> screenshot_subdomains sh d (line # rest) w0 =
           (Inr rest,
            py_print (MsgInputFileNotFound (if strip line = [] then live_file d else strip line))
              (py_print (PromptInputFile (live_file d)) w0))"
    using assms
    by (simp add: screenshot_subdomains_def py_input_def Let_def os_path_exists_def)
  have "strip choice = ''2'' \<Longrightarrow>
            menu_loop sh iter d (choice # line # rest) w =
            menu_loop sh iter d rest
              (py_print MsgScreenshotFinished
                (py_print (MsgInputFileNotFound (if strip line = [] then live_file d else strip line))
                  (py_print (PromptInputFile (live_file d))
                    (py_print PromptChoice (print_menu w)))))"
    by (subst menu_loop.simps)
       (simp add: py_input_def Let_def s [of "py_print PromptChoice (print_menu w)"])
  with s [of w] show ?thesis by simp
qed

text \<open>
  Claim C7 at a concrete input: in a world without files, the line \<open>nofile\<close> names no
  file; the step prints the prompt and the error and runs nothing, and the menu loop goes
  on to read the choice 3.
\<close>

theorem screenshot_missing_input_witness:
  "fst (screenshot_subdomains example_sh ''example.com'' [''nofile'', ''3''] empty_world) = Inr [''3'']
   \<and> console (snd (screenshot_subdomains example_sh ''example.com'' [''nofile'', ''3''] empty_world)) =
       [PromptInputFile (live_file ''example.com''), MsgInputFileNotFound ''nofile'']
   \<and> invoked (snd (screenshot_subdomains example_sh ''example.com'' [''nofile'', ''3''] empty_world)) = []
   \<and> fst (menu_loop example_sh sorted_list_of_set ''example.com'' [''2'', ''nofile'', ''3''] empty_world) =
       Inr ()
   \<and> invoked (snd (menu_loop example_sh sorted_list_of_set ''example.com'' [''2'', ''nofile'', ''3'']
         empty_world)) = []"
proof -
  have n: "strip ''nofile'' = ''nofile''" "strip ''2'' = ''2''" "strip ''3'' = ''3''"
    by (simp_all add: str_defs)
  have f: "files empty_world (if strip ''nofile'' = [] then live_file ''example.com''
      else strip ''nofile'') = None"
    by (simp add: n empty_world_def)
  note t = screenshot_missing_input [where sh = example_sh and d = "''example.com''"
      and rest = "[''3'']" and choice = "''2''" and iter = sorted_list_of_set, OF f]
  have l: "menu_loop example_sh sorted_list_of_set ''example.com'' [''3''] w =
      (Inr (), py_print MsgGoodbye (py_print PromptChoice (print_menu w)))" for w :: "unit world"
    by (subst menu_loop.simps) (simp add: py_input_def n)
  from t show ?thesis
    by (simp add: n l) (simp add: empty_world_def)
qed

text \<open>
  Claim C8. An empty (or blank) answer to the prompt for the target domain makes \<open>main\<close>
  print that the domain cannot be empty and return: the menu is never printed and nothing
  else changes. In the menu loop a choice that, trimmed, is none of 1, 2 and 3 is answered
  with the invalid-choice message, and the loop starts its next round in a world that
  differs only by what was printed.
\<close>

theorem menu_driver_guards:
  "(strip line = [] \<longrightarrow>
      main sh iter (line # rest) w =
        (Inr (), py_print MsgDomainEmpty (py_print PromptDomain
                   (py_print MsgRule (py_print MsgHelps (py_print MsgWelcome w))))))
   \<and> (strip line \<noteq> ''1'' \<and> strip line \<noteq> ''2'' \<and> strip line \<noteq> ''3'' \<longrightarrow>
        menu_loop sh iter d (line # rest) w =
          menu_loop sh iter d rest
            (py_print MsgInvalidChoice (py_print PromptChoice (print_menu w))))"
proof (intro conjI impI)
  assume "strip line = []"
  then show "main sh iter (line # rest) w =
        (Inr (), py_print MsgDomainEmpty (py_print PromptDomain
                   (py_print MsgRule (py_print MsgHelps (py_print MsgWelcome w)))))"
    by (simp add: main_def py_input_def)
next
  assume "strip line \<noteq> ''1'' \<and> strip line \<noteq> ''2'' \<and> strip line \<noteq> ''3''"
  then show "menu_loop sh iter d (line # rest) w =
          menu_loop sh iter d rest
            (py_print MsgInvalidChoice (py_print PromptChoice (print_menu w)))"
    by (subst menu_loop.simps) (simp add: py_input_def)
qed

text \<open>
  Claim C8 at concrete inputs: a blank answer to the domain prompt, and the choice 7
  followed by the choice 3.
\<close>

theorem menu_driver_guards_witness:
  "strip ''  '' = []
   \<and> fst (main example_sh sorted_list_of_set [''  '', ''1''] empty_world) = Inr ()
   \<and> console (snd (main example_sh sorted_list_of_set [''  '', ''1''] empty_world)) =
       [MsgWelcome, MsgHelps, MsgRule, PromptDomain, MsgDomainEmpty]
   \<and> invoked (snd (main example_sh sorted_list_of_set [''  '', ''1''] empty_world)) = []
   \<and> strip ''7'' = ''7''
   \<and> menu_loop example_sh sorted_list_of_set ''example.com'' [''7'', ''3''] empty_world =
       menu_loop example_sh sorted_list_of_set ''example.com'' [''3'']
         (py_print MsgInvalidChoice (py_print PromptChoice (print_menu empty_world)))"
proof -
  have n: "strip ''  '' = []" "strip ''7'' = ''7''"
    by (simp_all add: str_defs)
  from menu_driver_guards [of "''  ''" example_sh sorted_list_of_set "[''1'']" empty_world]
    menu_driver_guards [of "''7''" example_sh sorted_list_of_set "[''3'']" empty_world "''example.com''"]
  show ?thesis
    by (simp add: n) (simp add: empty_world_def)
qed




text \<open>
  Claim C10. For an expansion target \<open>sub\<close> (any listed host other than the target
  domain), let the subfinder command end with outcome \<open>p1\<close> and the amass command after it
  with outcome \<open>p2\<close>, whatever they are. The loop runs both commands and goes on with the
  remaining targets, the newly-found set grown by what the two invocations contribute;
  and an invocation with a non-zero exit code, with no standard output or with an empty
  one contributes nothing. That covers the not-found condition (non-zero exit code with
  "not found" in the error text, or a launch that raises \<open>FileNotFoundError\<close>), which
  aborts the initial phase but not this one.
\<close>

theorem expansion_failure_continues:
  assumes "sub \<noteq> d"
    and "sh (subfinder_cmd sub) (files w, env w) = (p1, fs1, env1)"
    and "sh (amass_cmd sub) (fs1, env1) = (p2, fs2, env2)"
  shows "(\<exists>w'. recursive_loop sh d total_targets ((i, sub) # rest) N w =
            recursive_loop sh d total_targets rest
              (N \<union> found_lines (returned p1) \<union> found_lines (returned p2)) w'
          \<and> files w' = fs2 \<and> env w' = env2
          \<and> invoked w' = invoked w @ expansion_commands sub)
       \<and> (\<forall>p. snd (snd (returned p)) \<noteq> 0 \<or> fst (returned p) = None \<or> fst (returned p) = Some []
              \<longrightarrow> found_lines (returned p) = {})
       \<and> (\<forall>out err rc. rc \<noteq> 0 \<and> not_found_in err
              \<longrightarrow> found_lines (returned (Completed out err rc)) = {})
       \<and> found_lines (returned RaisedFileNotFoundError) = {}"
proof -
  have a: "found_lines (returned p) = {}"
    if "snd (snd (returned p)) \<noteq> 0 \<or> fst (returned p) = None \<or> fst (returned p) = Some []" for p
    using that add_stdout_lines_failed [of "snd (snd (returned p))" "fst (returned p)" "{}"]
    by (cases "returned p") (auto simp: found_lines_def)
  have b: "found_lines (returned (Completed out err rc)) = {}" if "rc \<noteq> 0 \<and> not_found_in err"
    for out err rc
    using that by (simp add: found_lines_def returned_def add_stdout_lines_def)
  have c: "found_lines (returned RaisedFileNotFoundError) = {}"
    by (simp add: found_lines_def returned_def add_stdout_lines_def)
  from recursive_loop_step [where sh = sh and sub = sub and d = d and w = w and ?p1.0 = p1
        and ?fs1.0 = fs1 and ?env1.0 = env1 and ?p2.0 = p2 and ?fs2.0 = fs2 and ?env2.0 = env2
        and total_targets = total_targets and i = i and rest = rest and N = N] assms
  have "\<exists>w'. recursive_loop sh d total_targets ((i, sub) # rest) N w =
            recursive_loop sh d total_targets rest
              (N \<union> found_lines (returned p1) \<union> found_lines (returned p2)) w'
          \<and> files w' = fs2 \<and> env w' = env2
          \<and> invoked w' = invoked w @ expansion_commands sub"
    by simp
  with a b c show ?thesis by blast
qed

text \<open>
  Claim C10 at a concrete input: subfinder is not installed, amass finds
  \<open>x.a.example.com\<close> below \<open>a.example.com\<close>; the loop runs both commands for
  \<open>a.example.com\<close>, then both for \<open>b.example.com\<close>, and ends with the one host found.
\<close>

theorem expansion_failure_continues_witness:
  "fst (recursive_loop missing_subfinder_sh ''example.com'' 3
          [(0, ''a.example.com''), (1, ''b.example.com''), (2, ''example.com'')] {} empty_world) =
     {''x.a.example.com''}
   \<and> invoked (snd (recursive_loop missing_subfinder_sh ''example.com'' 3
          [(0, ''a.example.com''), (1, ''b.example.com''), (2, ''example.com'')] {} empty_world)) =
     [subfinder_cmd ''a.example.com'', amass_cmd ''a.example.com'',
      subfinder_cmd ''b.example.com'', amass_cmd ''b.example.com'']"
proof -
  let ?missing = "Completed [] ''sh: 1: subfinder: not found'' 127"
  let ?fs = "files empty_world"
  have s1: "missing_subfinder_sh (subfinder_cmd ''a.example.com'') (files empty_world, env empty_world) =
      (?missing, ?fs, ())"
    by (simp add: missing_subfinder_sh_def cmd_defs)
  have s2: "missing_subfinder_sh (amass_cmd ''a.example.com'') (?fs, ()) =
      (Completed (''x.a.example.com'' @ [LF]) [] 0, ?fs, ())"
    by (simp add: missing_subfinder_sh_def cmd_defs)
  have ne: "''a.example.com'' \<noteq> ''example.com''"
    by simp
  from expansion_failure_continues [where sh = missing_subfinder_sh and d = "''example.com''"
      and total_targets = 3 and i = 0 and rest = "[(1, ''b.example.com''), (2, ''example.com'')]"
      and N = "{}", OF ne s1 s2]
  obtain w' where w': "recursive_loop missing_subfinder_sh ''example.com'' 3
          [(0, ''a.example.com''), (1, ''b.example.com''), (2, ''example.com'')] {} empty_world =
        recursive_loop missing_subfinder_sh ''example.com'' 3
          [(1, ''b.example.com''), (2, ''example.com'')]
          ({} \<union> found_lines (returned ?missing)
              \<union> found_lines (returned (Completed (''x.a.example.com'' @ [LF]) [] 0))) w'"
    "files w' = ?fs" "invoked w' = invoked empty_world @ expansion_commands ''a.example.com''"
    by blast
  have f: "{} \<union> found_lines (returned ?missing)
              \<union> found_lines (returned (Completed (''x.a.example.com'' @ [LF]) [] 0)) =
      {''x.a.example.com''}"
    by (simp add: found_lines_def returned_def add_stdout_lines_def str_defs)
  have r: "fst (recursive_loop missing_subfinder_sh ''example.com'' 3
          [(1, ''b.example.com''), (2, ''example.com'')] {''x.a.example.com''} w') = {''x.a.example.com''}
     \<and> invoked (snd (recursive_loop missing_subfinder_sh ''example.com'' 3
          [(1, ''b.example.com''), (2, ''example.com'')] {''x.a.example.com''} w')) =
       invoked w' @ [subfinder_cmd ''b.example.com'', amass_cmd ''b.example.com'']"
    by (simp add: recursive_loop.simps run_command_def missing_subfinder_sh_def cmd_defs
        add_stdout_lines_def Let_def py_print_def str_defs)
  from w' f r show ?thesis
    by (simp add: expansion_commands_def empty_world_def)
qed

end
